theory Spec2Isabelle
  imports Main "HOL-Library.Multiset"
begin

section \<open>Data model\<close>

text \<open>
  The orchestrator of \<^verbatim>\<open>traad/rope_interface.py\<close> drives an analysis engine (rope)
  whose code is not part of the repository. What the orchestrator reads from the
  engine's objects is kept as record fields; what it calls on the engine is kept as
  the fields of an \<open>engine\<close> record, so every method of \<^verbatim>\<open>RopeInterface\<close> is a
  function of the engine, the project state and its arguments.
  The \<^verbatim>\<open>@trace\<close> decorator (module \<^verbatim>\<open>traad.trace\<close>) and the calls to the logger
  write to the log only; the log is not part of the modelled state.
\<close>

datatype error =
    IndexError
  | KeyError
  | ValueError
  | SystemExit
  | AnalysisError string

text \<open>A call either raises (\<open>Inl\<close> of the error) or returns (\<open>Inr\<close> of the value).\<close>

type_synonym 'a outcome = "error + 'a"

text \<open>A rope resource, as far as the orchestrator reads it: \<^verbatim>\<open>path\<close>,
  \<^verbatim>\<open>real_path\<close> and \<^verbatim>\<open>is_folder()\<close>.\<close>

record resource =
  res_path :: string
  res_real_path :: string
  res_is_folder :: bool

text \<open>One change of a change set: \<^verbatim>\<open>c.resource\<close> and \<^verbatim>\<open>c.get_description()\<close>.\<close>

record change =
  ch_resource :: resource
  ch_description :: string

text \<open>A change set: \<^verbatim>\<open>description\<close>, \<^verbatim>\<open>time\<close>, \<^verbatim>\<open>get_description()\<close> and
  \<^verbatim>\<open>changes\<close>. The time stamp is only copied, so its type is left open.\<close>

record 't change_set =
  cs_description :: string
  cs_time :: 't
  cs_full_change :: string
  cs_changes :: "change list"

text \<open>The project: the contents of its resources (type \<open>'fs\<close>, owned by the engine)
  and the two lists of \<^verbatim>\<open>proj.history\<close>.\<close>

record ('fs, 't) project =
  files :: 'fs
  undo_list :: "'t change_set list"
  redo_list :: "'t change_set list"

text \<open>A method that mutates the project returns its outcome and the project state it
  leaves behind.\<close>

type_synonym ('fs, 't) history_op =
  "'t change_set \<Rightarrow> ('fs, 't) project \<Rightarrow> unit outcome \<times> ('fs, 't) project"

text \<open>The two refactoring classes \<^verbatim>\<open>_extract\<close> is called with.\<close>

datatype extract_class = ExtractMethod | ExtractVariable

text \<open>
  The engine, as the orchestrator calls it. All queries read the project's contents.
  \<^item> \<open>root_real_path\<close>: \<^verbatim>\<open>proj.root.real_path\<close>; \<open>getcwd\<close>: the working directory
    that \<^verbatim>\<open>os.path.abspath\<close> reads;
  \<^item> \<open>get_resource\<close>: \<^verbatim>\<open>proj.get_resource(path)\<close>; \<open>get_children\<close>:
    \<^verbatim>\<open>res.get_children()\<close>;
  \<^item> \<open>extract_changes\<close>: \<^verbatim>\<open>cls(proj, resource, start, end).get_changes(name)\<close>;
    \<open>rename_changes\<close>: \<^verbatim>\<open>Rename(proj, resource, offset).get_changes(new_name)\<close>;
  \<^item> \<open>proj_do\<close>: \<^verbatim>\<open>proj.do(changes)\<close>; \<open>proj_history_undo\<close>, \<open>proj_history_redo\<close>:
    \<^verbatim>\<open>proj.history.undo(change)\<close>, \<^verbatim>\<open>proj.history.redo(change)\<close>;
  \<^item> \<open>definition_location\<close>: \<^verbatim>\<open>rope.contrib.codeassist.get_definition_location\<close>.
\<close>

record ('fs, 't) engine =
  root_real_path :: string
  getcwd :: string
  get_resource :: "'fs \<Rightarrow> string \<Rightarrow> resource outcome"
  get_children :: "'fs \<Rightarrow> resource \<Rightarrow> resource list outcome"
  extract_changes ::
    "extract_class \<Rightarrow> 'fs \<Rightarrow> resource \<Rightarrow> int \<Rightarrow> int \<Rightarrow> string \<Rightarrow> 't change_set outcome"
  rename_changes :: "'fs \<Rightarrow> resource \<Rightarrow> int option \<Rightarrow> string \<Rightarrow> 't change_set outcome"
  proj_do :: "('fs, 't) history_op"
  proj_history_undo :: "('fs, 't) history_op"
  proj_history_redo :: "('fs, 't) history_op"
  definition_location ::
    "'fs \<Rightarrow> string \<Rightarrow> int \<Rightarrow> resource \<Rightarrow> (resource option \<times> int option) outcome"

section \<open>Paths\<close>

text \<open>
  \<^verbatim>\<open>os.path\<close> on a POSIX system (\<^verbatim>\<open>posixpath\<close>): the separator is \<open>/\<close>.
  \<open>split_sep\<close> is \<^verbatim>\<open>s.split('/')\<close> and \<open>join_sep\<close> is \<^verbatim>\<open>'/'.join(ws)\<close>.
\<close>

fun split_sep :: "string \<Rightarrow> string list" where
  "split_sep [] = [[]]"
| "split_sep (c # cs) =
     (if c = CHR ''/'' then [] # split_sep cs
      else (case split_sep cs of [] \<Rightarrow> [[c]] | w # ws \<Rightarrow> (c # w) # ws))"

fun join_sep :: "string list \<Rightarrow> string" where
  "join_sep [] = []"
| "join_sep [w] = w"
| "join_sep (w # v # ws) = w @ CHR ''/'' # join_sep (v # ws)"

definition isabs :: "string \<Rightarrow> bool" where
  "isabs s = (case s of [] \<Rightarrow> False | c # _ \<Rightarrow> c = CHR ''/'')"

text \<open>\<^verbatim>\<open>posixpath.join(a, *p)\<close>: a component that starts with the separator replaces
  what was joined so far.\<close>

fun path_join :: "string \<Rightarrow> string list \<Rightarrow> string" where
  "path_join a [] = a"
| "path_join a (b # p) =
     path_join (if isabs b then b
                else if a = [] \<or> last a = CHR ''/'' then a @ b
                else a @ CHR ''/'' # b) p"

text \<open>The loop of \<^verbatim>\<open>posixpath.normpath\<close> over the components, \<open>new_comps\<close> being the
  list built so far and \<open>initial\<close> telling whether the path starts with a separator.\<close>

fun normpath_loop :: "bool \<Rightarrow> string list \<Rightarrow> string list \<Rightarrow> string list" where
  "normpath_loop initial new_comps [] = new_comps"
| "normpath_loop initial new_comps (x # comps) =
     (if x = [] \<or> x = ''.'' then normpath_loop initial new_comps comps
      else if x \<noteq> ''..'' \<or> (\<not> initial \<and> new_comps = []) \<or>
              (new_comps \<noteq> [] \<and> last new_comps = ''..'')
        then normpath_loop initial (new_comps @ [x]) comps
      else if new_comps \<noteq> [] then normpath_loop initial (butlast new_comps) comps
      else normpath_loop initial new_comps comps)"

definition initial_slashes :: "string \<Rightarrow> nat" where
  "initial_slashes p =
     (if \<not> isabs p then 0
      else if take 2 p = ''//'' \<and> take 3 p \<noteq> ''///'' then 2
      else 1)"

definition normpath :: "string \<Rightarrow> string" where
  "normpath p =
     (if p = [] then ''.''
      else
        let comps = normpath_loop (initial_slashes p \<noteq> 0) [] (split_sep p);
            q = replicate (initial_slashes p) CHR ''/'' @ join_sep comps
        in if q = [] then ''.'' else q)"

definition abspath :: "string \<Rightarrow> string \<Rightarrow> string" where
  "abspath cwd p = normpath (if isabs p then p else path_join cwd [p])"

text \<open>\<^verbatim>\<open>commonprefix\<close> of two lists: their longest common prefix.\<close>

fun commonprefix :: "'a list \<Rightarrow> 'a list \<Rightarrow> 'a list" where
  "commonprefix (x # xs) (y # ys) = (if x = y then x # commonprefix xs ys else [])"
| "commonprefix _ _ = []"

text \<open>The component list \<^verbatim>\<open>[x for x in abspath(p).split(sep) if x]\<close>.\<close>

definition abs_components :: "string \<Rightarrow> string \<Rightarrow> string list" where
  "abs_components cwd p = filter (\<lambda>x. x \<noteq> []) (split_sep (abspath cwd p))"

definition relpath :: "string \<Rightarrow> string \<Rightarrow> string \<Rightarrow> string outcome" where
  "relpath cwd p start =
     (if p = [] then Inl ValueError
      else
        let start_list = abs_components cwd start;
            path_list = abs_components cwd p;
            i = length (commonprefix start_list path_list);
            rel_list = replicate (length start_list - i) ''..'' @ drop i path_list
        in (case rel_list of
              [] \<Rightarrow> Inr ''.''
            | a # bs \<Rightarrow> Inr (path_join a bs)))"

text \<open>\<^verbatim>\<open>RopeInterface._to_relative_path\<close>.\<close>

definition to_relative_path :: "('fs, 't) engine \<Rightarrow> string \<Rightarrow> string outcome" where
  "to_relative_path eng p =
     (if isabs p then relpath (getcwd eng) p (root_real_path eng) else Inr p)"


section \<open>Undo, redo and the history queries\<close>

text \<open>Python's \<^verbatim>\<open>seq[idx]\<close> on a list: an index from \<open>0\<close> to \<open>len - 1\<close> counts from
  the front, one from \<open>-len\<close> to \<open>-1\<close> counts from the end, every other index raises
  \<^verbatim>\<open>IndexError\<close> (here \<open>None\<close>).\<close>

definition py_index :: "'a list \<Rightarrow> int \<Rightarrow> 'a option" where
  "py_index seq idx =
     (if 0 \<le> idx \<and> idx < int (length seq) then Some (seq ! nat idx)
      else if idx < 0 \<and> - int (length seq) \<le> idx then Some (seq ! nat (int (length seq) + idx))
      else None)"

text \<open>\<^verbatim>\<open>RopeInterface.undo\<close>: the argument \<^verbatim>\<open>undo_list[idx]\<close> is evaluated first; only
  then is the engine's \<^verbatim>\<open>history.undo\<close> called with it.\<close>

definition undo ::
  "('fs, 't) engine \<Rightarrow> ('fs, 't) project \<Rightarrow> int \<Rightarrow> unit outcome \<times> ('fs, 't) project" where
  "undo eng proj idx =
     (case py_index (undo_list proj) idx of
        None \<Rightarrow> (Inl IndexError, proj)
      | Some c \<Rightarrow> proj_history_undo eng c proj)"

definition redo ::
  "('fs, 't) engine \<Rightarrow> ('fs, 't) project \<Rightarrow> int \<Rightarrow> unit outcome \<times> ('fs, 't) project" where
  "redo eng proj idx =
     (case py_index (redo_list proj) idx of
        None \<Rightarrow> (Inl IndexError, proj)
      | Some c \<Rightarrow> proj_history_redo eng c proj)"

definition undo_history :: "('fs, 't) project \<Rightarrow> string list" where
  "undo_history proj = map cs_description (undo_list proj)"

definition redo_history :: "('fs, 't) project \<Rightarrow> string list" where
  "redo_history proj = map cs_description (redo_list proj)"

text \<open>The dictionaries built by \<^verbatim>\<open>_history_info\<close>.\<close>

record change_info =
  ci_resource :: string
  ci_change :: string

record 't history_info =
  hi_description :: string
  hi_time :: 't
  hi_full_change :: string
  hi_changes :: "change_info list"

definition contents :: "change \<Rightarrow> change_info" where
  "contents c = \<lparr>ci_resource = res_path (ch_resource c), ci_change = ch_description c\<rparr>"

definition history_info_of :: "'t change_set \<Rightarrow> 't history_info" where
  "history_info_of c =
     \<lparr>hi_description = cs_description c, hi_time = cs_time c,
      hi_full_change = cs_full_change c, hi_changes = map contents (cs_changes c)\<rparr>"

definition history_info :: "'t change_set list \<Rightarrow> int \<Rightarrow> 't history_info outcome" where
  "history_info seq idx =
     (case py_index seq idx of
        None \<Rightarrow> Inl IndexError
      | Some c \<Rightarrow> Inr (history_info_of c))"



section \<open>Refactorings\<close>

text \<open>\<^verbatim>\<open>RopeInterface._extract\<close>: resolve the path, look the resource up, compute the
  changes and hand them to \<^verbatim>\<open>proj.do\<close>; an exception of the last two steps is logged
  and raised again.\<close>

definition extract' ::
  "('fs, 't) engine \<Rightarrow> ('fs, 't) project \<Rightarrow> string \<Rightarrow> string \<Rightarrow> int \<Rightarrow> int \<Rightarrow> extract_class \<Rightarrow>
     unit outcome \<times> ('fs, 't) project" where
  "extract' eng proj p name start_offset end_offset cls =
     (case to_relative_path eng p of
        Inl e \<Rightarrow> (Inl e, proj)
      | Inr p' \<Rightarrow>
          (case get_resource eng (files proj) p' of
             Inl e \<Rightarrow> (Inl e, proj)
           | Inr res \<Rightarrow>
               (case extract_changes eng cls (files proj) res start_offset end_offset name of
                  Inl e \<Rightarrow> (Inl e, proj)
                | Inr changes \<Rightarrow> proj_do eng changes proj)))"

definition extract_method ::
  "('fs, 't) engine \<Rightarrow> ('fs, 't) project \<Rightarrow> string \<Rightarrow> string \<Rightarrow> int \<Rightarrow> int \<Rightarrow>
     unit outcome \<times> ('fs, 't) project" where
  "extract_method eng proj name p start_offset end_offset =
     extract' eng proj p name start_offset end_offset ExtractMethod"

definition extract_variable ::
  "('fs, 't) engine \<Rightarrow> ('fs, 't) project \<Rightarrow> string \<Rightarrow> string \<Rightarrow> int \<Rightarrow> int \<Rightarrow>
     unit outcome \<times> ('fs, 't) project" where
  "extract_variable eng proj name p start_offset end_offset =
     extract' eng proj p name start_offset end_offset ExtractVariable"

definition rename ::
  "('fs, 't) engine \<Rightarrow> ('fs, 't) project \<Rightarrow> string \<Rightarrow> string \<Rightarrow> int option \<Rightarrow>
     unit outcome \<times> ('fs, 't) project" where
  "rename eng proj new_name p offset =
     (case to_relative_path eng p of
        Inl e \<Rightarrow> (Inl e, proj)
      | Inr p' \<Rightarrow>
          (case get_resource eng (files proj) p' of
             Inl e \<Rightarrow> (Inl e, proj)
           | Inr res \<Rightarrow>
               (case rename_changes eng (files proj) res offset new_name of
                  Inl e \<Rightarrow> (Inl e, proj)
                | Inr changes \<Rightarrow> proj_do eng changes proj)))"

text \<open>A refactoring request, and a run of requests that stops at the first one that
  raises.\<close>

datatype request =
    Extract_Method string string int int
  | Extract_Variable string string int int
  | Rename string string "int option"

fun refactor ::
  "('fs, 't) engine \<Rightarrow> ('fs, 't) project \<Rightarrow> request \<Rightarrow> unit outcome \<times> ('fs, 't) project" where
  "refactor eng proj (Extract_Method name p s e) = extract_method eng proj name p s e"
| "refactor eng proj (Extract_Variable name p s e) = extract_variable eng proj name p s e"
| "refactor eng proj (Rename new_name p offset) = rename eng proj new_name p offset"

fun refactor_all ::
  "('fs, 't) engine \<Rightarrow> ('fs, 't) project \<Rightarrow> request list \<Rightarrow> unit outcome \<times> ('fs, 't) project" where
  "refactor_all eng proj [] = (Inr (), proj)"
| "refactor_all eng proj (r # rs) =
     (case refactor eng proj r of
        (Inl e, proj') \<Rightarrow> (Inl e, proj')
      | (Inr _, proj') \<Rightarrow> refactor_all eng proj' rs)"

text \<open>\<open>n\<close> calls of \<^verbatim>\<open>undo(0)\<close>, stopping at the first one that raises.\<close>

fun undo_times ::
  "('fs, 't) engine \<Rightarrow> nat \<Rightarrow> ('fs, 't) project \<Rightarrow> unit outcome \<times> ('fs, 't) project" where
  "undo_times eng 0 proj = (Inr (), proj)"
| "undo_times eng (Suc n) proj =
     (case undo eng proj 0 of
        (Inl e, proj') \<Rightarrow> (Inl e, proj')
      | (Inr _, proj') \<Rightarrow> undo_times eng n proj')"

section \<open>The engine's history\<close>

text \<open>
  The engine's \<^verbatim>\<open>proj.do\<close>, \<^verbatim>\<open>history.undo\<close> and \<^verbatim>\<open>history.redo\<close> belong to rope and
  are not in the repository's sources. They are written down from the specification of
  the change history. Its \<^verbatim>\<open>apply\<close> commits an atomic change set and returns the
  committed change set, or fails; the engine computes the inverse of a change set.
  Both stay parameters.
\<close>

type_synonym ('fs, 't) apply_fn = "'t change_set \<Rightarrow> 'fs \<Rightarrow> ('t change_set \<times> 'fs) outcome"

text \<open>Modelled from the spec: \<^verbatim>\<open>record(change_set)\<close> of the change history (rope's
  history, not in the sources): push to the front of \<open>undo_list\<close>, clear \<open>redo_list\<close>.\<close>

definition history_record :: "'t change_set \<Rightarrow> ('fs, 't) project \<Rightarrow> ('fs, 't) project" where
  "history_record c proj = proj\<lparr>undo_list := c # undo_list proj, redo_list := []\<rparr>"

text \<open>Modelled from the spec: the engine's \<^verbatim>\<open>proj.do\<close> (rope, not in the sources):
  apply the change set, then record the applied change set; nothing is recorded when
  applying fails.\<close>

definition project_do :: "('fs, 't) apply_fn \<Rightarrow> ('fs, 't) history_op" where
  "project_do apply_changes c proj =
     (case apply_changes c (files proj) of
        Inl e \<Rightarrow> (Inl e, proj)
      | Inr (c', fs') \<Rightarrow> (Inr (), history_record c' (proj\<lparr>files := fs'\<rparr>)))"

text \<open>Modelled from the spec: the engine's \<^verbatim>\<open>history.undo(change)\<close> (rope, not in the
  sources): remove the entry from \<open>undo_list\<close>, apply its computed inverse, push the
  resulting inverse change set to the front of \<open>redo_list\<close>.\<close>

definition history_undo ::
  "('fs, 't) apply_fn \<Rightarrow> ('t change_set \<Rightarrow> 't change_set) \<Rightarrow> ('fs, 't) history_op" where
  "history_undo apply_changes invert c proj =
     (case apply_changes (invert c) (files proj) of
        Inl e \<Rightarrow> (Inl e, proj)
      | Inr (c', fs') \<Rightarrow>
          (Inr (),
           proj\<lparr>files := fs', undo_list := remove1 c (undo_list proj),
                redo_list := c' # redo_list proj\<rparr>))"

text \<open>Modelled from the spec: the engine's \<^verbatim>\<open>history.redo(change)\<close> (rope, not in the
  sources): as \<open>history_undo\<close>, from \<open>redo_list\<close> back onto \<open>undo_list\<close>.\<close>

definition history_redo ::
  "('fs, 't) apply_fn \<Rightarrow> ('t change_set \<Rightarrow> 't change_set) \<Rightarrow> ('fs, 't) history_op" where
  "history_redo apply_changes invert c proj =
     (case apply_changes (invert c) (files proj) of
        Inl e \<Rightarrow> (Inl e, proj)
      | Inr (c', fs') \<Rightarrow>
          (Inr (),
           proj\<lparr>files := fs', redo_list := remove1 c (redo_list proj),
                undo_list := c' # undo_list proj\<rparr>))"

text \<open>An engine follows the specified history when its three history operations are the
  ones above, for its own \<open>apply_changes\<close> and \<open>invert\<close>.\<close>

definition specified_history ::
  "('fs, 't) apply_fn \<Rightarrow> ('t change_set \<Rightarrow> 't change_set) \<Rightarrow> ('fs, 't) engine \<Rightarrow> bool" where
  "specified_history apply_changes invert eng =
     (proj_do eng = project_do apply_changes \<and>
      proj_history_undo eng = history_undo apply_changes invert \<and>
      proj_history_redo eng = history_redo apply_changes invert)"

text \<open>Change sets are invertible: the inverse of a committed change set applies to the
  contents the change set left, and gives back the contents it was applied to.\<close>

definition invertible ::
  "('fs, 't) apply_fn \<Rightarrow> ('t change_set \<Rightarrow> 't change_set) \<Rightarrow> bool" where
  "invertible apply_changes invert =
     (\<forall>c fs c' fs'. apply_changes c fs = Inr (c', fs') \<longrightarrow>
        (\<exists>c''. apply_changes (invert c') fs' = Inr (c'', fs)))"

text \<open>The change set a request has the engine compute: the steps of the request's
  method that come before \<^verbatim>\<open>proj.do\<close>.\<close>

definition get_changes ::
  "('fs, 't) engine \<Rightarrow> ('fs, 't) project \<Rightarrow> request \<Rightarrow> 't change_set outcome" where
  "get_changes eng proj r =
     (case to_relative_path eng (case r of Extract_Method _ p _ _ \<Rightarrow> p
                                   | Extract_Variable _ p _ _ \<Rightarrow> p | Rename _ p _ \<Rightarrow> p) of
        Inl e \<Rightarrow> Inl e
      | Inr p' \<Rightarrow>
          (case get_resource eng (files proj) p' of
             Inl e \<Rightarrow> Inl e
           | Inr res \<Rightarrow>
               (case r of
                  Extract_Method name _ s e \<Rightarrow>
                    extract_changes eng ExtractMethod (files proj) res s e name
                | Extract_Variable name _ s e \<Rightarrow>
                    extract_changes eng ExtractVariable (files proj) res s e name
                | Rename new_name _ offset \<Rightarrow>
                    rename_changes eng (files proj) res offset new_name)))"

text \<open>Undoing the entries of a list one after the other, first entry first, from the
  contents \<open>fs\<close>, succeeds and ends with the contents \<open>fs0\<close>.\<close>

fun undoable ::
  "('fs, 't) apply_fn \<Rightarrow> ('t change_set \<Rightarrow> 't change_set) \<Rightarrow> 'fs \<Rightarrow> 't change_set list \<Rightarrow> 'fs \<Rightarrow> bool" where
  "undoable ap ivt fs0 [] fs = (fs = fs0)"
| "undoable ap ivt fs0 (c # cs) fs =
     (case ap (ivt c) fs of Inl e \<Rightarrow> False | Inr (c'', fs') \<Rightarrow> undoable ap ivt fs0 cs fs')"

section \<open>Listing all resources\<close>

text \<open>
  The generator \<^verbatim>\<open>get_all_resources(proj)\<close>, collected by \<^verbatim>\<open>list(...)\<close>: \<open>todo\<close> is the
  queue of paths, \<open>yielded\<close> the pairs yielded so far. The loop ends when the queue is
  empty; an exception of the engine ends it with that exception. The result \<open>None\<close>
  stands for a loop that never ends.
\<close>

partial_function (option) get_all_resources_loop ::
  "(string \<Rightarrow> resource outcome) \<Rightarrow> (resource \<Rightarrow> resource list outcome) \<Rightarrow>
     string list \<Rightarrow> (string \<times> bool) list \<Rightarrow> (string \<times> bool) list outcome option" where
  "get_all_resources_loop get_res get_ch todo yielded =
     (case todo of
        [] \<Rightarrow> Some (Inr yielded)
      | res_path' # todo' \<Rightarrow>
          (case get_res res_path' of
             Inl e \<Rightarrow> Some (Inl e)
           | Inr res \<Rightarrow>
               if res_is_folder res then
                 (case get_ch res of
                    Inl e \<Rightarrow> Some (Inl e)
                  | Inr children \<Rightarrow>
                      get_all_resources_loop get_res get_ch (todo' @ map res_path children)
                        (yielded @ [(res_path res, res_is_folder res)]))
               else
                 get_all_resources_loop get_res get_ch todo'
                   (yielded @ [(res_path res, res_is_folder res)])))"

text \<open>\<^verbatim>\<open>RopeInterface.get_all_resources\<close>: the queue starts with the path of the root,
  the empty string.\<close>

definition get_all_resources ::
  "('fs, 't) engine \<Rightarrow> ('fs, 't) project \<Rightarrow> (string \<times> bool) list outcome option" where
  "get_all_resources eng proj =
     get_all_resources_loop (get_resource eng (files proj)) (get_children eng (files proj))
       [[]] []"

text \<open>The pair yielded for a resource.\<close>

definition yield_of :: "resource \<Rightarrow> string \<times> bool" where
  "yield_of res = (res_path res, res_is_folder res)"

text \<open>A finite resource tree: a resource and the trees of its children, in the order in
  which the engine lists them.\<close>

datatype rtree = RTree resource "rtree list"

fun root_of :: "rtree \<Rightarrow> resource" where
  "root_of (RTree r ts) = r"

fun children_of :: "rtree \<Rightarrow> rtree list" where
  "children_of (RTree r ts) = ts"

text \<open>All resources of a tree, each node once.\<close>

fun resources_of :: "rtree \<Rightarrow> resource list" where
  "resources_of (RTree r ts) = r # concat (map resources_of ts)"

text \<open>The engine's answers are those of the tree: looking a node's path up gives the
  node's resource, a folder's children are the roots of its subtrees, and a file has
  none.\<close>

fun represents ::
  "(string \<Rightarrow> resource outcome) \<Rightarrow> (resource \<Rightarrow> resource list outcome) \<Rightarrow> rtree \<Rightarrow> bool" where
  "represents get_res get_ch (RTree r ts) =
     (get_res (res_path r) = Inr r \<and>
      (if res_is_folder r then get_ch r = Inr (map root_of ts) else ts = []) \<and>
      (\<forall>t \<in> set ts. represents get_res get_ch t))"

text \<open>Breadth-first order of a forest: all roots, then all nodes one level down, and so
  on, each level from left to right.\<close>

function level_order :: "rtree list \<Rightarrow> resource list" where
  "level_order ts =
     (if ts = [] then [] else map root_of ts @ level_order (concat (map children_of ts)))"
  by pat_completeness auto
termination
proof (relation "measure (size_list size)")
  show "wf (measure (size_list size :: rtree list \<Rightarrow> nat))"
    by simp
next
  fix ts :: "rtree list"
  assume "ts \<noteq> []"
  then have "size_list size (concat (map children_of ts)) < size_list size ts"
  proof (induction ts)
    case Nil
    then show ?case by simp
  next
    case (Cons t ts)
    obtain r cs where t: "t = RTree r cs" by (cases t)
    show ?case
    proof (cases "ts = []")
      case True
      with t show ?thesis by simp
    next
      case False
      with Cons.IH t show ?thesis by simp
    qed
  qed
  then show "(concat (map children_of ts), ts) \<in> measure (size_list size)"
    by simp
qed

declare level_order.simps [simp del]

text \<open>The order in which a queue of trees is served when the children of the tree
  served are put at the end of the queue.\<close>

function bfs_queue :: "rtree list \<Rightarrow> resource list" where
  "bfs_queue [] = []"
| "bfs_queue (t # ts) = root_of t # bfs_queue (ts @ children_of t)"
  by pat_completeness auto
termination
proof (relation "measure (size_list size)")
  show "wf (measure (size_list size :: rtree list \<Rightarrow> nat))"
    by simp
next
  fix t :: rtree and ts
  show "(ts @ children_of t, t # ts) \<in> measure (size_list size)"
    by (cases t) simp
qed

section \<open>Definition lookup\<close>

text \<open>The first component of the pair \<^verbatim>\<open>get_definition_location\<close> returns: \<^verbatim>\<open>None\<close>,
  a path, or the resource object of the engine's answer when that answer is returned as
  it is.\<close>

datatype location_path = No_Path | Path string | Resource_Object resource

text \<open>\<^verbatim>\<open>RopeInterface.get_definition_location\<close>. The engine's answer \<open>rslt\<close> is a pair:
  it is returned as it is when its line is \<^verbatim>\<open>None\<close>; the resolved path of the query
  stands in when its resource is \<^verbatim>\<open>None\<close>; otherwise the \<^verbatim>\<open>real_path\<close> of its resource
  is returned.\<close>

definition get_definition_location ::
  "('fs, 't) engine \<Rightarrow> ('fs, 't) project \<Rightarrow> string \<Rightarrow> int \<Rightarrow> string \<Rightarrow>
     (location_path \<times> int option) outcome" where
  "get_definition_location eng proj code offset p =
     (case to_relative_path eng p of
        Inl e \<Rightarrow> Inl e
      | Inr p' \<Rightarrow>
          (case get_resource eng (files proj) p' of
             Inl e \<Rightarrow> Inl e
           | Inr res \<Rightarrow>
               (case definition_location eng (files proj) code offset res of
                  Inl e \<Rightarrow> Inl e
                | Inr rslt \<Rightarrow>
                    (case rslt of
                       (None, None) \<Rightarrow> Inr (No_Path, None)
                     | (Some r, None) \<Rightarrow> Inr (Resource_Object r, None)
                     | (None, Some line) \<Rightarrow> Inr (Path p', Some line)
                     | (Some r, Some line) \<Rightarrow> Inr (Path (res_real_path r), Some line)))))"

section \<open>The process entry point\<close>








section \<open>An example engine\<close>

text \<open>A small engine to run the model on: the project has one module, \<^verbatim>\<open>m.py\<close>, whose
  text is the project's contents. A change set either inserts its text in front of the
  module's text or deletes it from there; each is the inverse of the other.\<close>

definition ex_resource :: resource where
  "ex_resource = \<lparr>res_path = ''m.py'', res_real_path = ''/proj/m.py'', res_is_folder = False\<rparr>"

definition ex_change :: "string \<Rightarrow> string \<Rightarrow> nat change_set" where
  "ex_change kind txt =
     \<lparr>cs_description = kind, cs_time = 0, cs_full_change = txt,
      cs_changes = [\<lparr>ch_resource = ex_resource, ch_description = txt\<rparr>]\<rparr>"

definition ex_apply :: "(string, nat) apply_fn" where
  "ex_apply c fs =
     (if cs_description c = ''insert'' then Inr (c, cs_full_change c @ fs)
      else if cs_description c = ''delete'' \<and>
              take (length (cs_full_change c)) fs = cs_full_change c
        then Inr (c, drop (length (cs_full_change c)) fs)
      else Inl (AnalysisError ''cannot apply''))"

definition ex_invert :: "nat change_set \<Rightarrow> nat change_set" where
  "ex_invert c =
     c\<lparr>cs_description := (if cs_description c = ''insert'' then ''delete'' else ''insert'')\<rparr>"

definition ex_engine :: "(string, nat) engine" where
  "ex_engine =
     \<lparr>root_real_path = ''/proj'',
      getcwd = ''/home'',
      get_resource =
        (\<lambda>fs p. if p = ''m.py'' then Inr ex_resource else Inl (AnalysisError ''no resource'')),
      get_children = (\<lambda>fs r. Inr []),
      extract_changes =
        (\<lambda>cls fs res s e name.
           if 0 \<le> s \<and> s \<le> e then Inr (ex_change ''insert'' name)
           else Inl (AnalysisError ''bad region'')),
      rename_changes = (\<lambda>fs res offset new_name. Inr (ex_change ''insert'' new_name)),
      proj_do = project_do ex_apply,
      proj_history_undo = history_undo ex_apply ex_invert,
      proj_history_redo = history_redo ex_apply ex_invert,
      definition_location = (\<lambda>fs code offset res. Inr (None, None))\<rparr>"

text \<open>Projects of the example engine and a run of two requests.\<close>

definition ex_project :: "(string, nat) project" where
  "ex_project =
     \<lparr>files = ''x = 1'',
      undo_list = [ex_change ''insert'' ''x = '', ex_change ''insert'' ''1''],
      redo_list = [ex_change ''delete'' ''y'']\<rparr>"

definition ex_empty :: "(string, nat) project" where
  "ex_empty = \<lparr>files = ''x = 1'', undo_list = [], redo_list = []\<rparr>"

definition ex_requests :: "request list" where
  "ex_requests = [Rename ''y'' ''m.py'' None, Extract_Method ''f'' ''m.py'' 0 1]"

definition ex_refactored :: "(string, nat) project" where
  "ex_refactored =
     \<lparr>files = ''fyx = 1'',
      undo_list = [ex_change ''insert'' ''f'', ex_change ''insert'' ''y''],
      redo_list = []\<rparr>"


text \<open>A project with the folder \<^verbatim>\<open>a\<close>, the modules \<^verbatim>\<open>a/b.py\<close> and \<^verbatim>\<open>c.py\<close>, and an
  engine that answers for it.\<close>

definition ex_folder :: "string \<Rightarrow> resource" where
  "ex_folder p = \<lparr>res_path = p, res_real_path = ''/proj/'' @ p, res_is_folder = True\<rparr>"

definition ex_file :: "string \<Rightarrow> resource" where
  "ex_file p = \<lparr>res_path = p, res_real_path = ''/proj/'' @ p, res_is_folder = False\<rparr>"

definition ex_tree :: rtree where
  "ex_tree =
     RTree (ex_folder [])
       [RTree (ex_folder ''a'') [RTree (ex_file ''a/b.py'') []],
        RTree (ex_file ''c.py'') []]"

definition ex_tree_engine :: "(string, nat) engine" where
  "ex_tree_engine =
     ex_engine
       \<lparr>get_resource :=
          (\<lambda>fs p. if p = [] then Inr (ex_folder [])
                   else if p = ''a'' then Inr (ex_folder ''a'')
                   else if p = ''a/b.py'' then Inr (ex_file ''a/b.py'')
                   else if p = ''c.py'' then Inr (ex_file ''c.py'')
                   else Inl (AnalysisError ''no resource'')),
        get_children :=
          (\<lambda>fs r. if res_path r = [] then Inr [ex_folder ''a'', ex_file ''c.py'']
                   else if res_path r = ''a'' then Inr [ex_file ''a/b.py'']
                   else Inl (AnalysisError ''not a folder''))\<rparr>"

text \<open>An engine whose definition lookup gives, by offset, each of its three documented
  answers, and a resource with no line otherwise.\<close>

definition ex_lookup_engine :: "(string, nat) engine" where
  "ex_lookup_engine =
     ex_engine
       \<lparr>definition_location :=
          (\<lambda>fs code offset res.
             if offset = 0 then Inr (None, None)
             else if offset = 1 then Inr (None, Some 3)
             else if offset = 2 then Inr (Some (ex_file ''lib.py''), Some 7)
             else Inr (Some (ex_file ''lib.py''), None))\<rparr>"

section \<open>Index errors of undo and redo\<close>

lemma py_index_too_large: "int (length seq) \<le> idx \<Longrightarrow> py_index seq idx = None"
  by (simp add: py_index_def)


text \<open>
  Claim C1. For every index \<open>idx\<close> that is at least the length of the list it indexes,
  \<open>undo idx\<close> and \<open>redo idx\<close> raise \<^verbatim>\<open>IndexError\<close>, whatever the engine's undo and
  redo do, and the project (its contents, \<open>undo_list\<close> and \<open>redo_list\<close>) is left as it
  was.
\<close>

theorem undo_redo_index_out_of_range:
  "(int (length (undo_list proj)) \<le> idx \<longrightarrow> undo eng proj idx = (Inl IndexError, proj)) \<and>
   (int (length (redo_list proj)) \<le> idx \<longrightarrow> redo eng proj idx = (Inl IndexError, proj))"
  by (simp add: undo_def redo_def py_index_too_large)

theorem undo_redo_index_out_of_range_witness:
  "int (length (undo_list ex_project)) \<le> 2 \<and>
   undo ex_engine ex_project 2 = (Inl IndexError, ex_project) \<and>
   int (length (redo_list ex_project)) \<le> 2 \<and>
   redo ex_engine ex_project 2 = (Inl IndexError, ex_project)"
  using undo_redo_index_out_of_range [of ex_project 2 ex_engine]
  by (simp add: ex_project_def)

section \<open>Refactorings and the history\<close>

lemma refactor_get_changes:
  "refactor eng proj r =
     (case get_changes eng proj r of
        Inl e \<Rightarrow> (Inl e, proj)
      | Inr c \<Rightarrow> proj_do eng c proj)"
  by (cases r)
    (simp_all add: get_changes_def extract_method_def extract_variable_def extract'_def
      rename_def split: sum.splits)

lemma refactor_specified:
  "proj_do eng = project_do ap \<Longrightarrow>
   refactor eng proj r =
     (case get_changes eng proj r of
        Inl e \<Rightarrow> (Inl e, proj)
      | Inr c \<Rightarrow>
          (case ap c (files proj) of
             Inl e \<Rightarrow> (Inl e, proj)
           | Inr (c', fs') \<Rightarrow>
               (Inr (), \<lparr>files = fs', undo_list = c' # undo_list proj, redo_list = []\<rparr>)))"
  by (simp add: refactor_get_changes project_do_def history_record_def
      split: sum.splits prod.splits)

lemma refactor_success:
  assumes "proj_do eng = project_do ap" and "refactor eng proj r = (Inr u, proj')"
  shows "\<exists>c c' fs'. ap c (files proj) = Inr (c', fs') \<and>
           proj' = \<lparr>files = fs', undo_list = c' # undo_list proj, redo_list = []\<rparr>"
  using assms(2) unfolding refactor_specified [OF assms(1)]
  by (auto split: sum.splits prod.splits)

lemma refactor_undoable:
  assumes ivt: "invertible ap ivt" and eng: "proj_do eng = project_do ap"
    and u: "undoable ap ivt fs0 (undo_list proj) (files proj)"
    and r: "refactor eng proj r = (Inr u', proj')"
  shows "undoable ap ivt fs0 (undo_list proj') (files proj') \<and>
         length (undo_list proj') = Suc (length (undo_list proj)) \<and> redo_list proj' = []"
proof -
  from refactor_success [OF eng r] obtain c c' fs' where
    ap: "ap c (files proj) = Inr (c', fs')" and
    p': "proj' = \<lparr>files = fs', undo_list = c' # undo_list proj, redo_list = []\<rparr>"
    by blast
  from ivt ap obtain c'' where "ap (ivt c') fs' = Inr (c'', files proj)"
    unfolding invertible_def by blast
  with u p' show ?thesis by simp
qed

lemma refactor_all_undoable:
  assumes ivt: "invertible ap ivt" and eng: "proj_do eng = project_do ap"
  shows "undoable ap ivt fs0 (undo_list proj) (files proj) \<Longrightarrow>
         refactor_all eng proj rs = (Inr u', proj') \<Longrightarrow>
         undoable ap ivt fs0 (undo_list proj') (files proj') \<and>
         length (undo_list proj') = length (undo_list proj) + length rs \<and>
         (rs \<noteq> [] \<longrightarrow> redo_list proj' = [])"
proof (induction rs arbitrary: proj)
  case Nil
  then show ?case by simp
next
  case (Cons r rs)
  from Cons.prems(2) obtain u1 p1 where
    r1: "refactor eng proj r = (Inr u1, p1)" and
    rest: "refactor_all eng p1 rs = (Inr u', proj')"
    by (auto split: prod.splits sum.splits)
  from refactor_undoable [OF ivt eng Cons.prems(1) r1]
  have u1: "undoable ap ivt fs0 (undo_list p1) (files p1)"
    and l1: "length (undo_list p1) = Suc (length (undo_list proj))"
    and e1: "redo_list p1 = []"
    by simp_all
  from Cons.IH [OF u1 rest] l1 e1 show ?case
    by (cases rs) (use rest in auto)
qed

lemma undo_times_undoable:
  assumes eng: "proj_history_undo eng = history_undo ap ivt"
  shows "undoable ap ivt fs0 (undo_list proj) (files proj) \<Longrightarrow>
         n = length (undo_list proj) \<Longrightarrow>
         \<exists>proj2. undo_times eng n proj = (Inr (), proj2) \<and> files proj2 = fs0 \<and>
           undo_list proj2 = [] \<and> length (redo_list proj2) = length (redo_list proj) + n"
proof (induction n arbitrary: proj)
  case 0
  then show ?case by simp
next
  case (Suc n)
  then obtain c cs where ul: "undo_list proj = c # cs"
    by (cases "undo_list proj") simp_all
  with Suc.prems(1) obtain c'' fs' where
    ap: "ap (ivt c) (files proj) = Inr (c'', fs')" and u': "undoable ap ivt fs0 cs fs'"
    by (auto split: sum.splits)
  define p1 where "p1 = proj\<lparr>files := fs', undo_list := cs, redo_list := c'' # redo_list proj\<rparr>"
  have step: "undo eng proj 0 = (Inr (), p1)"
    by (simp add: undo_def py_index_def ul eng history_undo_def ap p1_def)
  have "undoable ap ivt fs0 (undo_list p1) (files p1)" and "n = length (undo_list p1)"
    using u' Suc.prems(2) ul by (simp_all add: p1_def)
  from Suc.IH [OF this] obtain proj2 where
    "undo_times eng n p1 = (Inr (), proj2)" "files proj2 = fs0" "undo_list proj2 = []"
    "length (redo_list proj2) = length (redo_list p1) + n"
    by blast
  with step show ?case by (simp add: p1_def)
qed

lemma ex_engine_specified: "specified_history ex_apply ex_invert ex_engine"
  by (simp add: specified_history_def ex_engine_def)

lemma ex_invertible: "invertible ex_apply ex_invert"
  unfolding invertible_def
  by (auto simp: ex_apply_def ex_invert_def split: if_splits) (metis append_take_drop_id)

lemma ex_refactor_all: "refactor_all ex_engine ex_empty ex_requests = (Inr (), ex_refactored)"
  by (simp add: ex_requests_def ex_empty_def ex_refactored_def extract_method_def extract'_def
      rename_def to_relative_path_def isabs_def ex_engine_def project_do_def history_record_def
      ex_apply_def ex_change_def)

text \<open>
  Claim C2. For each refactoring request (extract method, extract variable, rename) on an
  engine whose \<^verbatim>\<open>proj.do\<close> is the specified one: when computing the change set
  raises, or applying it raises, the call raises that error and the project (contents
  and both history lists) is unchanged; otherwise the committed change set is applied to
  the contents and recorded as the one new entry at the front of \<open>undo_list\<close>.
\<close>

theorem refactor_applied_and_recorded_or_unchanged:
  "proj_do eng = project_do apply_changes \<Longrightarrow>
   refactor eng proj r =
     (case get_changes eng proj r of
        Inl e \<Rightarrow> (Inl e, proj)
      | Inr c \<Rightarrow>
          (case apply_changes c (files proj) of
             Inl e \<Rightarrow> (Inl e, proj)
           | Inr (c', fs') \<Rightarrow>
               (Inr (), \<lparr>files = fs', undo_list = c' # undo_list proj, redo_list = []\<rparr>)))"
  by (rule refactor_specified)

theorem refactor_applied_and_recorded_or_unchanged_witness:
  "proj_do ex_engine = project_do ex_apply \<and>
   refactor ex_engine ex_project (Rename ''y'' ''m.py'' None) =
     (Inr (), \<lparr>files = ''yx = 1'',
               undo_list = ex_change ''insert'' ''y'' # undo_list ex_project,
               redo_list = []\<rparr>) \<and>
   refactor ex_engine ex_project (Extract_Method ''f'' ''m.py'' 3 1) =
     (Inl (AnalysisError ''bad region''), ex_project) \<and>
   refactor ex_engine ex_project (Rename ''y'' ''n.py'' None) =
     (Inl (AnalysisError ''no resource''), ex_project)"
proof -
  have d: "proj_do ex_engine = project_do ex_apply"
    by (simp add: ex_engine_def)
  have f: "files ex_project = ''x = 1''"
    by (simp add: ex_project_def)
  show ?thesis
    using refactor_applied_and_recorded_or_unchanged [OF d, of ex_project "Rename ''y'' ''m.py'' None"]
      refactor_applied_and_recorded_or_unchanged [OF d, of ex_project "Extract_Method ''f'' ''m.py'' 3 1"]
      refactor_applied_and_recorded_or_unchanged [OF d, of ex_project "Rename ''y'' ''n.py'' None"]
    by (simp add: d f get_changes_def to_relative_path_def isabs_def ex_engine_def ex_apply_def
        ex_change_def)
qed

text \<open>
  Claim C4. On an engine whose \<^verbatim>\<open>proj.do\<close> is the specified one, a refactoring request
  that returns leaves \<open>undo_list\<close> with exactly one new change set in front of the
  entries it had, and \<open>redo_list\<close> empty, whatever the two lists were before.
\<close>

theorem refactor_pushes_one_and_clears_redo:
  "proj_do eng = project_do apply_changes \<Longrightarrow> refactor eng proj r = (Inr u, proj') \<Longrightarrow>
   (\<exists>c'. undo_list proj' = c' # undo_list proj) \<and> redo_list proj' = []"
  using refactor_success [of eng apply_changes proj r u proj'] by auto

theorem refactor_pushes_one_and_clears_redo_witness:
  "proj_do ex_engine = project_do ex_apply \<and>
   redo_list ex_project \<noteq> [] \<and>
   (\<exists>proj'. refactor ex_engine ex_project (Extract_Variable ''v'' ''m.py'' 0 1) = (Inr (), proj') \<and>
      (\<exists>c'. undo_list proj' = c' # undo_list ex_project) \<and> redo_list proj' = [])"
proof -
  have d: "proj_do ex_engine = project_do ex_apply"
    by (simp add: ex_engine_def)
  obtain proj' where
    r: "refactor ex_engine ex_project (Extract_Variable ''v'' ''m.py'' 0 1) = (Inr (), proj')"
    by (simp add: extract_variable_def extract'_def to_relative_path_def isabs_def ex_engine_def
        project_do_def ex_apply_def ex_change_def)
  from refactor_pushes_one_and_clears_redo [OF d r] d r show ?thesis
    by (simp add: ex_project_def)
qed

text \<open>
  Claim C3. On an engine with the specified history whose change sets are invertible:
  after \<open>N\<close> refactoring requests that all return, started from an empty history,
  \<open>N\<close> calls of \<open>undo 0\<close> all return, the contents of the project are the ones
  before the requests, \<open>undo_list\<close> is empty and \<open>redo_list\<close> has \<open>N\<close> entries.
\<close>

theorem undo_all_restores_contents:
  assumes "specified_history apply_changes invert eng"
    and "invertible apply_changes invert"
    and "undo_list proj = []" and "redo_list proj = []"
    and "refactor_all eng proj rs = (Inr (), proj1)"
  shows "\<exists>proj2. undo_times eng (length rs) proj1 = (Inr (), proj2) \<and>
           files proj2 = files proj \<and> undo_list proj2 = [] \<and>
           length (redo_list proj2) = length rs"
proof -
  from assms(1) have d: "proj_do eng = project_do apply_changes"
    and h: "proj_history_undo eng = history_undo apply_changes invert"
    by (simp_all add: specified_history_def)
  have u0: "undoable apply_changes invert (files proj) (undo_list proj) (files proj)"
    by (simp add: assms(3))
  from refactor_all_undoable [OF assms(2) d u0 assms(5)]
  have u1: "undoable apply_changes invert (files proj) (undo_list proj1) (files proj1)"
    and l1: "length (undo_list proj1) = length rs"
    and e1: "rs \<noteq> [] \<longrightarrow> redo_list proj1 = []"
    by (simp_all add: assms(3))
  have r1: "redo_list proj1 = []"
  proof (cases rs)
    case Nil
    with assms(4,5) show ?thesis by simp
  next
    case (Cons a list)
    with e1 show ?thesis by simp
  qed
  from undo_times_undoable [OF h u1 l1 [symmetric]] r1 show ?thesis
    by simp
qed



theorem undo_all_restores_contents_witness:
  "specified_history ex_apply ex_invert ex_engine \<and> invertible ex_apply ex_invert \<and>
   undo_list ex_empty = [] \<and> redo_list ex_empty = [] \<and>
   refactor_all ex_engine ex_empty ex_requests = (Inr (), ex_refactored) \<and>
   (\<exists>proj2. undo_times ex_engine (length ex_requests) ex_refactored = (Inr (), proj2) \<and>
      files proj2 = files ex_empty \<and> undo_list proj2 = [] \<and>
      length (redo_list proj2) = length ex_requests)"
proof -
  have e: "undo_list ex_empty = []" "redo_list ex_empty = []"
    by (simp_all add: ex_empty_def)
  from undo_all_restores_contents [OF ex_engine_specified ex_invertible e ex_refactor_all]
    ex_engine_specified ex_invertible e ex_refactor_all
  show ?thesis by simp
qed

section \<open>Negative indices\<close>








section \<open>Listing all resources, breadth first\<close>

lemma level_order_Nil: "level_order [] = []"
  by (subst level_order.simps) simp

lemma level_order_Cons:
  "level_order (t # ts) =
     root_of t # map root_of ts @ level_order (children_of t @ concat (map children_of ts))"
  by (subst level_order.simps) simp

lemma loop_bfs_queue:
  "\<forall>t \<in> set q. represents get_res get_ch t \<Longrightarrow>
   get_all_resources_loop get_res get_ch (map res_path (map root_of q)) yielded =
     Some (Inr (yielded @ map yield_of (bfs_queue q)))"
proof (induction q arbitrary: yielded rule: bfs_queue.induct)
  case 1
  show ?case by (simp add: get_all_resources_loop.simps)
next
  case (2 t ts)
  obtain r cs where t: "t = RTree r cs" by (cases t)
  from "2.prems" t have gr: "get_res (res_path r) = Inr r"
    and ch: "if res_is_folder r then get_ch r = Inr (map root_of cs) else cs = []"
    and rest: "\<forall>u \<in> set (ts @ children_of t). represents get_res get_ch u"
    by auto
  note IH = "2.IH" [OF rest, of "yielded @ [yield_of r]"]
  have "get_all_resources_loop get_res get_ch (map res_path (map root_of (t # ts))) yielded =
        get_all_resources_loop get_res get_ch (map res_path (map root_of (ts @ children_of t)))
          (yielded @ [yield_of r])"
  proof (cases "res_is_folder r")
    case True
    with ch have "get_ch r = Inr (map root_of cs)" by simp
    with True gr t show ?thesis
      by (subst get_all_resources_loop.simps) (simp add: yield_of_def)
  next
    case False
    with ch have "cs = []" by simp
    with False gr t show ?thesis
      by (subst get_all_resources_loop.simps) (simp add: yield_of_def)
  qed
  also note IH
  finally show ?case using t by simp
qed

lemma bfs_queue_append:
  "bfs_queue (xs @ ys) = map root_of xs @ bfs_queue (ys @ concat (map children_of xs))"
proof (induction xs arbitrary: ys)
  case Nil
  show ?case by simp
next
  case (Cons x xs)
  have "bfs_queue ((x # xs) @ ys) = root_of x # bfs_queue (xs @ (ys @ children_of x))"
    by simp
  also have "\<dots> = root_of x # map root_of xs @
      bfs_queue ((ys @ children_of x) @ concat (map children_of xs))"
    by (simp only: Cons.IH)
  finally show ?case by simp
qed

lemma bfs_queue_level_order: "bfs_queue ts = level_order ts"
proof (induction ts rule: level_order.induct)
  case (1 ts)
  show ?case
  proof (cases "ts = []")
    case True
    then show ?thesis by (simp add: level_order_Nil)
  next
    case False
    from bfs_queue_append [of ts "[]"]
    have "bfs_queue ts = map root_of ts @ bfs_queue (concat (map children_of ts))"
      by simp
    with False "1.IH" show ?thesis
      by (subst level_order.simps) simp
  qed
qed

lemma mset_bfs_queue:
  "mset (bfs_queue q) = (\<Sum>t \<in># mset q. mset (resources_of t))"
proof (induction q rule: bfs_queue.induct)
  case 1
  show ?case by simp
next
  case (2 t ts)
  obtain r cs where t: "t = RTree r cs" by (cases t)
  have "mset (concat (map resources_of cs)) = (\<Sum>u \<in># mset cs. mset (resources_of u))"
    by (induction cs) simp_all
  with "2.IH" t show ?case by simp
qed


lemma ex_tree_represented:
  "represents (get_resource ex_tree_engine (files ex_project))
     (get_children ex_tree_engine (files ex_project)) ex_tree"
  by (simp add: ex_tree_def ex_tree_engine_def ex_folder_def ex_file_def)

lemma level_order_ex_tree:
  "level_order [ex_tree] = [ex_folder [], ex_folder ''a'', ex_file ''c.py'', ex_file ''a/b.py'']"
  by (simp add: ex_tree_def level_order_Cons level_order_Nil)

text \<open>
  Claim C7. For every finite resource tree that the engine answers for, with the root at
  the empty path, \<open>get_all_resources\<close> returns, and returns the pair
  \<open>(path, is_folder)\<close> of every resource of the tree exactly once (the list it returns
  is a rearrangement of the tree's resources), in breadth-first order from the root,
  which comes first.
\<close>

theorem get_all_resources_breadth_first:
  assumes "represents (get_resource eng (files proj)) (get_children eng (files proj)) t"
    and "res_path (root_of t) = []"
  shows "get_all_resources eng proj = Some (Inr (map yield_of (level_order [t]))) \<and>
         mset (level_order [t]) = mset (resources_of t)"
proof -
  from assms(1) have "\<forall>u \<in> set [t]. represents (get_resource eng (files proj))
      (get_children eng (files proj)) u"
    by simp
  from loop_bfs_queue [OF this, of "[]"] assms(2)
  have "get_all_resources eng proj = Some (Inr (map yield_of (bfs_queue [t])))"
    by (simp add: get_all_resources_def)
  moreover have "mset (bfs_queue [t]) = mset (resources_of t)"
    by (subst mset_bfs_queue) simp
  ultimately show ?thesis
    by (simp add: bfs_queue_level_order)
qed

theorem get_all_resources_breadth_first_witness:
  "represents (get_resource ex_tree_engine (files ex_project))
     (get_children ex_tree_engine (files ex_project)) ex_tree \<and>
   res_path (root_of ex_tree) = [] \<and>
   get_all_resources ex_tree_engine ex_project =
     Some (Inr [([], True), (''a'', True), (''c.py'', False), (''a/b.py'', False)]) \<and>
   mset (level_order [ex_tree]) = mset (resources_of ex_tree)"
proof -
  have r: "res_path (root_of ex_tree) = []"
    by (simp add: ex_tree_def ex_folder_def)
  note w = get_all_resources_breadth_first [OF ex_tree_represented r]
  have y: "map yield_of (level_order [ex_tree]) =
      [([], True), (''a'', True), (''c.py'', False), (''a/b.py'', False)]"
    by (simp add: level_order_ex_tree yield_of_def ex_folder_def ex_file_def)
  from w have "get_all_resources ex_tree_engine ex_project =
      Some (Inr [([], True), (''a'', True), (''c.py'', False), (''a/b.py'', False)])"
    by (simp only: y)
  moreover from w have "mset (level_order [ex_tree]) = mset (resources_of ex_tree)"
    by (rule conjunct2)
  ultimately show ?thesis
    using ex_tree_represented r by (intro conjI)
qed

section \<open>Definition lookup and the entry point\<close>

text \<open>
  Claim C8, as amended. When the path resolves, the resource is found and the engine
  gives one of its three documented answers, \<open>get_definition_location\<close> returns:
  \<open>(None, None)\<close> for the answer \<open>(None, None)\<close>; the resolved path of the queried
  resource with the line for a line and no resource; and, for a resource and a line, the
  \<^verbatim>\<open>real_path\<close> of that resource (its path in the file system, which is not passed
  through the path resolver) with the line.
\<close>

theorem get_definition_location_results:
  assumes "to_relative_path eng p = Inr p'"
    and "get_resource eng (files proj) p' = Inr res"
    and "definition_location eng (files proj) code offset res = Inr rslt"
  shows "(rslt = (None, None) \<longrightarrow>
            get_definition_location eng proj code offset p = Inr (No_Path, None)) \<and>
         (\<forall>line. rslt = (None, Some line) \<longrightarrow>
            get_definition_location eng proj code offset p = Inr (Path p', Some line)) \<and>
         (\<forall>r line. rslt = (Some r, Some line) \<longrightarrow>
            get_definition_location eng proj code offset p =
              Inr (Path (res_real_path r), Some line))"
  using assms by (simp add: get_definition_location_def)

theorem get_definition_location_results_witness:
  "get_definition_location ex_lookup_engine ex_project ''x'' 0 ''m.py'' = Inr (No_Path, None) \<and>
   get_definition_location ex_lookup_engine ex_project ''x'' 1 ''m.py'' =
     Inr (Path ''m.py'', Some 3) \<and>
   get_definition_location ex_lookup_engine ex_project ''x'' 2 ''m.py'' =
     Inr (Path ''/proj/lib.py'', Some 7)"
proof -
  have p: "to_relative_path ex_lookup_engine ''m.py'' = Inr ''m.py''"
    by (simp add: to_relative_path_def isabs_def)
  have g: "get_resource ex_lookup_engine (files ex_project) ''m.py'' = Inr ex_resource"
    by (simp add: ex_lookup_engine_def ex_engine_def)
  have d0: "definition_location ex_lookup_engine (files ex_project) ''x'' 0 ex_resource =
      Inr (None, None)"
    and d1: "definition_location ex_lookup_engine (files ex_project) ''x'' 1 ex_resource =
      Inr (None, Some 3)"
    and d2: "definition_location ex_lookup_engine (files ex_project) ''x'' 2 ex_resource =
      Inr (Some (ex_file ''lib.py''), Some 7)"
    by (simp_all add: ex_lookup_engine_def)
  from get_definition_location_results [OF p g d0] get_definition_location_results [OF p g d1]
    get_definition_location_results [OF p g d2]
  show ?thesis
    by (simp add: ex_file_def)
qed

text \<open>The target \<^verbatim>\<open>lib.py\<close> of the example project: the path returned for it is its
  \<^verbatim>\<open>real_path\<close>, \<^verbatim>\<open>/proj/lib.py\<close>, which the path resolver would turn into \<^verbatim>\<open>lib.py\<close>;
  and an answer with a resource and no line is returned as it is, resource object
  included, which is none of the three pairs.\<close>

theorem get_definition_location_counterexample:
  "res_path (ex_file ''lib.py'') = ''lib.py'' \<and>
   to_relative_path ex_lookup_engine ''/proj/lib.py'' = Inr ''lib.py'' \<and>
   get_definition_location ex_lookup_engine ex_project ''x'' 2 ''m.py'' =
     Inr (Path ''/proj/lib.py'', Some 7) \<and>
   get_definition_location ex_lookup_engine ex_project ''x'' 2 ''m.py'' \<noteq>
     Inr (Path ''lib.py'', Some 7) \<and>
   get_definition_location ex_lookup_engine ex_project ''x'' 3 ''m.py'' =
     Inr (Resource_Object (ex_file ''lib.py''), None)"
  by (simp add: get_definition_location_def to_relative_path_def isabs_def relpath_def
      abs_components_def abspath_def normpath_def initial_slashes_def ex_lookup_engine_def
      ex_engine_def ex_file_def)



section \<open>Resolving paths\<close>

lemma split_sep_not_Nil: "split_sep s \<noteq> []"
  by (induction s) (auto split: list.splits)

lemma split_sep_no_sep: "w \<in> set (split_sep s) \<Longrightarrow> CHR ''/'' \<notin> set w"
proof (induction s arbitrary: w)
  case Nil
  then show ?case by simp
next
  case (Cons c s)
  show ?case
  proof (cases "c = CHR ''/''")
    case True
    with Cons show ?thesis by auto
  next
    case False
    obtain v vs where sp: "split_sep s = v # vs"
      using split_sep_not_Nil [of s] by (cases "split_sep s") auto
    with False Cons.prems have "w = c # v \<or> w \<in> set vs"
      by auto
    with sp Cons.IH False show ?thesis
      by auto
  qed
qed





lemma path_join_plain:
  "a \<noteq> [] \<Longrightarrow> last a \<noteq> CHR ''/'' \<Longrightarrow> \<forall>b \<in> set bs. b \<noteq> [] \<and> CHR ''/'' \<notin> set b \<Longrightarrow>
   path_join a bs = a @ concat (map ((#) CHR ''/'') bs)"
proof (induction bs arbitrary: a)
  case Nil
  then show ?case by simp
next
  case (Cons b bs)
  from Cons.prems have b: "b \<noteq> []" "CHR ''/'' \<notin> set b"
    by simp_all
  then have nabs: "\<not> isabs b"
    by (cases b) (auto simp: isabs_def)
  from b have lb: "last b \<noteq> CHR ''/''"
    using last_in_set by metis
  have "path_join (a @ CHR ''/'' # b) bs = (a @ CHR ''/'' # b) @ concat (map ((#) CHR ''/'') bs)"
    using Cons.prems b lb by (intro Cons.IH) simp_all
  with Cons.prems nabs show ?case
    by simp
qed


lemma abs_components_plain:
  "w \<in> set (abs_components cwd p) \<Longrightarrow> w \<noteq> [] \<and> CHR ''/'' \<notin> set w"
  by (auto simp: abs_components_def split_sep_no_sep)

lemma relpath_returns: "p \<noteq> [] \<Longrightarrow> \<exists>q. relpath cwd p start = Inr q"
  by (simp add: relpath_def Let_def split: list.splits)

lemma relpath_not_abs:
  assumes "relpath cwd p start = Inr q"
  shows "\<not> isabs q"
proof -
  let ?path_list = "abs_components cwd p"
  let ?start_list = "abs_components cwd start"
  let ?i = "length (commonprefix ?start_list ?path_list)"
  let ?rel_list = "replicate (length ?start_list - ?i) ''..'' @ drop ?i ?path_list"
  have plain: "w \<noteq> [] \<and> CHR ''/'' \<notin> set w" if "w \<in> set ?rel_list" for w
  proof -
    from that have "w = ''..'' \<or> w \<in> set ?path_list"
      by (auto dest: in_set_dropD)
    then show ?thesis
      using abs_components_plain [of w cwd p] by auto
  qed
  from assms have ne: "p \<noteq> []"
    by (auto simp: relpath_def split: if_splits)
  show ?thesis
  proof (cases ?rel_list)
    case Nil
    with assms ne have "q = ''.''"
      by (simp add: relpath_def Let_def)
    then show ?thesis by (simp add: isabs_def)
  next
    case (Cons a bs)
    with plain have a: "a \<noteq> []" "CHR ''/'' \<notin> set a"
      and bs: "\<forall>b \<in> set bs. b \<noteq> [] \<and> CHR ''/'' \<notin> set b"
      by (metis list.set_intros(1), metis list.set_intros(1), metis list.set_intros(2))
    from a have "last a \<noteq> CHR ''/''"
      using last_in_set by metis
    from assms ne Cons have "q = path_join a bs"
      by (simp add: relpath_def Let_def)
    with path_join_plain [OF a(1) \<open>last a \<noteq> CHR ''/''\<close> bs]
    have "q = a @ concat (map ((#) CHR ''/'') bs)"
      by simp
    with a show ?thesis
      by (cases a) (auto simp: isabs_def)
  qed
qed

text \<open>
  Claim C6. Resolving a path is idempotent: a path that is already relative is returned
  unchanged, and for every path the resolver returns a path that it resolves to itself.
\<close>

theorem to_relative_path_idempotent:
  "(\<not> isabs p \<longrightarrow> to_relative_path eng p = Inr p) \<and>
   (\<exists>q. to_relative_path eng p = Inr q \<and> to_relative_path eng q = Inr q)"
proof (cases "isabs p")
  case False
  then show ?thesis by (simp add: to_relative_path_def)
next
  case True
  then have "p \<noteq> []" by (auto simp: isabs_def)
  from relpath_returns [OF this]
  obtain q where q: "relpath (getcwd eng) p (root_real_path eng) = Inr q"
    by blast
  from relpath_not_abs [OF q] q True show ?thesis
    by (simp add: to_relative_path_def)
qed

theorem to_relative_path_idempotent_witness:
  "\<not> isabs ''a/b.py'' \<and> to_relative_path ex_engine ''a/b.py'' = Inr ''a/b.py'' \<and>
   (\<exists>q. to_relative_path ex_engine ''/proj/a/b.py'' = Inr q \<and>
      to_relative_path ex_engine q = Inr q)"
  using to_relative_path_idempotent [of "''a/b.py''" ex_engine]
    to_relative_path_idempotent [of "''/proj/a/b.py''" ex_engine]
  by (simp add: isabs_def)















end
